theory Spec2Isabelle
  imports Main "HOL-Library.Word"
begin

unbundle bit_operations_syntax

text \<open>
  A model of \<open>src/core/connection/connection.ts\<close>: the connection object, its data
  handler (the loop that cuts the socket's chunks into wire-protocol messages),
  \<open>processMessage\<close>, the handlers of the socket's \<open>error\<close>, \<open>timeout\<close> and \<open>close\<close>,
  \<open>destroy\<close>, \<open>write\<close>, \<open>isConnected\<close> and the constructor's defaults. Every function
  takes the state it reads and returns the state it leaves, together with the list of
  what it did to the outside, in order.
\<close>

section \<open>Buffers\<close>

text \<open>
  A Node \<open>Buffer\<close> is a byte list. A field typed \<open>Buffer|null|undefined\<close> is a
  \<open>bytes option\<close>: the source only ever tests such a field with \<open>!= null\<close>, which does
  not tell \<open>null\<close> from \<open>undefined\<close>, so both are \<open>None\<close>.
  An exception of the runtime (\<open>TypeError\<close>, \<open>RangeError\<close>) is a value of \<open>exn\<close>.
\<close>

type_synonym byte = "8 word"
type_synonym bytes = "byte list"

datatype exn = TypeError | RangeError

text \<open>\<open>SafeBuffer.alloc(n)\<close>: \<open>n\<close> zero bytes.\<close>

definition alloc :: "nat \<Rightarrow> bytes" where
  "alloc n = replicate n 0"

text \<open>
  \<open>buf.slice(start)\<close> and \<open>buf.slice(0, end)\<close>: a negative index counts from the end,
  and every index is clamped to the buffer.
\<close>

definition slice_from :: "bytes \<Rightarrow> int \<Rightarrow> bytes" where
  "slice_from buf start =
     (if start < 0 then drop (nat (int (length buf) + start)) buf else drop (nat start) buf)"

definition slice_to :: "bytes \<Rightarrow> int \<Rightarrow> bytes" where
  "slice_to buf end_ix =
     (if end_ix < 0 then take (nat (int (length buf) + end_ix)) buf else take (nat end_ix) buf)"

text \<open>
  \<open>source.copy(target, targetStart)\<close> and \<open>source.copy(target, targetStart, 0, sourceEnd)\<close>.
  The result is the target after the call. A target that is not a buffer is a
  \<open>TypeError\<close>, a negative \<open>targetStart\<close> or \<open>sourceEnd\<close> a \<open>RangeError\<close>; a
  \<open>targetStart\<close> at or behind the end of the target copies nothing, and only as many
  bytes are copied as the target has room for.
\<close>

definition overwrite :: "bytes \<Rightarrow> nat \<Rightarrow> bytes \<Rightarrow> bytes" where
  "overwrite target i src =
     take (length target) (take i target @ src @ drop (i + length src) target)"

definition copy :: "bytes \<Rightarrow> bytes option \<Rightarrow> int \<Rightarrow> exn + bytes" where
  "copy src target targetStart =
     (case target of
        None \<Rightarrow> Inl TypeError
      | Some t \<Rightarrow>
          if targetStart < 0 then Inl RangeError
          else Inr (overwrite t (nat targetStart) src))"

definition copy_to :: "bytes \<Rightarrow> bytes option \<Rightarrow> int \<Rightarrow> int \<Rightarrow> exn + bytes" where
  "copy_to src target targetStart sourceEnd =
     (case target of
        None \<Rightarrow> Inl TypeError
      | Some t \<Rightarrow>
          if targetStart < 0 \<or> sourceEnd < 0 then Inl RangeError
          else Inr (overwrite t (nat targetStart) (take (nat sourceEnd) src)))"

text \<open>
  The 32-bit signed integer of four little-endian bytes, as the source computes it:
  \<open>b0 | (b1 << 8) | (b2 << 16) | (b3 << 24)\<close> on JavaScript's 32-bit integers.
\<close>

definition int32LE :: "byte \<Rightarrow> byte \<Rightarrow> byte \<Rightarrow> byte \<Rightarrow> int" where
  "int32LE b0 b1 b2 b3 =
     sint ((ucast b0 :: 32 word) OR push_bit 8 (ucast b1) OR push_bit 16 (ucast b2)
             OR push_bit 24 (ucast b3))"

text \<open>\<open>buf.readInt32LE(offset)\<close>: a \<open>RangeError\<close> when the four bytes are not all there.\<close>

definition readInt32LE :: "bytes \<Rightarrow> nat \<Rightarrow> exn + int" where
  "readInt32LE buf off =
     (if off + 4 \<le> length buf
      then Inr (int32LE (buf ! off) (buf ! (off + 1)) (buf ! (off + 2)) (buf ! (off + 3)))
      else Inl RangeError)"

text \<open>\<open>buf[i]\<close>: \<open>undefined\<close> out of range.\<close>

definition byte_at :: "bytes \<Rightarrow> nat \<Rightarrow> byte option" where
  "byte_at buf i = (if i < length buf then Some (buf ! i) else None)"

section \<open>The connection and what it emits\<close>

text \<open>
  The socket is the transport's object; the connection reads two of its flags and calls
  \<open>destroy\<close>, \<open>end\<close> and \<open>write\<close> on it. The calls are recorded as effects; how the
  transport answers them is not part of this repository.
\<close>

record socket =
  sock_destroyed :: bool
  sock_writable :: bool

record connection =
  id_conn :: nat
  maxBsonMessageSize :: int
  socketTimeout :: int
  keepAlive :: bool
  keepAliveInitialDelay :: int
  connectionTimeout :: int
  destroyed :: bool
  socket :: "socket option"
  bytesRead :: int
  sizeOfMessage :: int
  buffer :: "bytes option"
  stubBuffer :: "bytes option"

text \<open>
  The header object that \<open>parseHeader\<close> returns. \<open>processMessage\<close> sets
  \<open>fromCompressed\<close> on the compressed path only; until then the key is absent, which is
  \<open>False\<close> here.
\<close>

record msgHeader =
  length_hdr :: int
  requestId :: int
  responseTo :: int
  opCode :: int
  fromCompressed :: bool

text \<open>The constructor chosen for a message: \<open>Response\<close> or \<open>BinMsg\<close>.\<close>

datatype responseConstructor = Response | BinMsg

text \<open>
  The object sent with \<open>parseError\<close>. The first error path of the data handler has no
  \<open>buffer\<close> key in \<open>parseState\<close> (\<open>None\<close>), the second has it with value \<open>null\<close>
  (\<open>Some None\<close>).
\<close>

record parseErrorObject =
  err :: string
  trace :: "string option"
  bin :: "bytes option"
  ps_sizeOfMessage :: int
  ps_bytesRead :: int
  ps_buffer :: "bytes option option"
  ps_stubBuffer :: "bytes option"

text \<open>
  The errors sent with \<open>error\<close>, \<open>timeout\<close> and \<open>close\<close>. A \<open>MongoNetworkError\<close>
  wraps the transport's error, or carries the message
  \<open>connection <id> to <address> timed out\<close> or \<open>... closed\<close>, kept here as the id.
  \<open>DecompressorError\<close> is the error the decompressor passes to its callback.
\<close>

datatype error_value =
    MongoNetworkError string
  | MongoNetworkTimedOut nat
  | MongoNetworkClosed nat
  | MongoError string
  | DecompressorError string

text \<open>
  What the compressed path of \<open>processMessage\<close> hands to the injected \<open>decompress\<close>:
  the compressor id, the compressed bytes, and the callback's captured variables
  (the rewritten header and the message).
\<close>

record pending =
  p_compressorID :: "byte option"
  p_compressed :: bytes
  p_msgHeader :: msgHeader
  p_message :: bytes

text \<open>
  Everything a handler does to the outside, in order: the events emitted on the
  connection, the calls on the socket, on the accounting spy, on the decompressor, and
  of the callback passed to \<open>destroy\<close>. \<open>Message c h m b\<close> is
  \<open>conn.emit('message', new c(conn.bson, m, h, b, conn.responseOptions), conn)\<close>.
  What the listeners, the socket, the spy and the decompressor do when called, and when
  the decompressor calls back, lies outside this file: a call is recorded and returns.
\<close>

datatype effect =
    Message responseConstructor msgHeader bytes bytes
  | ParseError parseErrorObject
  | ErrorEvent error_value
  | TimeoutEvent error_value
  | CloseEvent error_value
  | Decompress pending
  | SocketDestroy
  | SocketEnd bool
  | SocketWrite bytes
  | DestroyCallback "string option"
  | SpyDeleteConnection nat
  | SpyAddConnection nat

section \<open>processMessage\<close>

text \<open>
  What \<open>processMessage\<close> imports and this file's sources do not hold is a parameter of
  the model: the opcodes \<open>OP_MSG\<close> and \<open>OP_COMPRESSED\<close> of \<open>../wireprotocol/shared\<close>, and
  the constructors \<open>Response\<close> of \<open>./commands\<close> and \<open>BinMsg\<close> of \<open>./msg\<close>.
  \<open>newResponse ops c message msgHeader body\<close> is the exception that
  \<open>new c(conn.bson, message, msgHeader, body, conn.responseOptions)\<close> raises, or \<open>None\<close>
  when it returns the object.
\<close>

record externals =
  OP_MSG :: int
  OP_COMPRESSED :: int
  newResponse :: "responseConstructor \<Rightarrow> bytes \<Rightarrow> msgHeader \<Rightarrow> bytes \<Rightarrow> exn option"

text \<open>
  Modelled from the spec: \<open>MESSAGE_HEADER_SIZE\<close> of \<open>../wireprotocol/shared\<close> is
  missing. The header is the fixed 16 bytes at the start of a frame.
\<close>

definition MESSAGE_HEADER_SIZE :: nat where
  "MESSAGE_HEADER_SIZE = 16"

text \<open>
  Modelled from the spec: \<open>parseHeader\<close> of \<open>../wireprotocol/shared\<close> is missing. The
  header is \<open>messageLength, requestId, responseTo, opCode\<close>, each a little-endian int32,
  read with \<open>readInt32LE\<close> at the offsets 0, 4, 8 and 12.
\<close>

definition parseHeader :: "bytes \<Rightarrow> exn + msgHeader" where
  "parseHeader message =
     (case readInt32LE message 0 of Inl e \<Rightarrow> Inl e | Inr len \<Rightarrow>
     (case readInt32LE message 4 of Inl e \<Rightarrow> Inl e | Inr req \<Rightarrow>
     (case readInt32LE message 8 of Inl e \<Rightarrow> Inl e | Inr resp \<Rightarrow>
     (case readInt32LE message 12 of Inl e \<Rightarrow> Inl e | Inr opc \<Rightarrow>
        Inr \<lparr>length_hdr = len, requestId = req, responseTo = resp, opCode = opc,
             fromCompressed = False\<rparr>))))"

text \<open>
  \<open>processMessage\<close> either raises, or does one thing: it emits \<open>message\<close>, or it calls
  the decompressor. On the uncompressed path the response object is constructed first,
  as an argument of \<open>conn.emit\<close>: if the constructor raises, nothing is emitted.
\<close>

definition processMessage :: "externals \<Rightarrow> bytes \<Rightarrow> exn + effect" where
  "processMessage ops message =
     (case parseHeader message of
        Inl e \<Rightarrow> Inl e
      | Inr msgHeader \<Rightarrow>
          if opCode msgHeader \<noteq> OP_COMPRESSED ops then
            (case newResponse ops (if opCode msgHeader = OP_MSG ops then BinMsg else Response)
                    message msgHeader (slice_from message (int MESSAGE_HEADER_SIZE)) of
               Some e \<Rightarrow> Inl e
             | None \<Rightarrow>
                 Inr (Message (if opCode msgHeader = OP_MSG ops then BinMsg else Response)
                        msgHeader message (slice_from message (int MESSAGE_HEADER_SIZE))))
          else
            (case readInt32LE message MESSAGE_HEADER_SIZE of Inl e \<Rightarrow> Inl e | Inr opc \<Rightarrow>
            (case readInt32LE message (MESSAGE_HEADER_SIZE + 4) of Inl e \<Rightarrow> Inl e | Inr len \<Rightarrow>
               Inr (Decompress
                 \<lparr>p_compressorID = byte_at message (MESSAGE_HEADER_SIZE + 8),
                  p_compressed = slice_from message (int (MESSAGE_HEADER_SIZE + 9)),
                  p_msgHeader = msgHeader\<lparr>fromCompressed := True, opCode := opc,
                                           length_hdr := len\<rparr>,
                  p_message = message\<rparr>))))"

text \<open>
  The result of a handler that can raise: the connection afterwards, the effects in
  order, and the exception that left the handler, if one did.
\<close>

type_synonym outcome = "connection \<times> effect list \<times> exn option"

text \<open>
  The callback that \<open>processMessage\<close> passes to the decompressor, called with an error
  (\<open>Inl\<close>) or with the decompressed body (\<open>Inr\<close>). When the lengths agree, the response
  object is constructed before \<open>conn.emit\<close> is called: an exception of the constructor
  leaves the callback and nothing is emitted.
\<close>

definition decompressCallback ::
  "externals \<Rightarrow> connection \<Rightarrow> pending \<Rightarrow> string + bytes \<Rightarrow> outcome" where
  "decompressCallback ops conn p result =
     (case result of
        Inl e \<Rightarrow> (conn, [ErrorEvent (DecompressorError e)], None)
      | Inr decompressedMsgBody \<Rightarrow>
          if int (length decompressedMsgBody) \<noteq> length_hdr (p_msgHeader p) then
            (conn,
             [ErrorEvent (MongoError
               ''Decompressing a compressed message from the server failed. The message is corrupt.'')],
             None)
          else
            (case newResponse ops
                    (if opCode (p_msgHeader p) = OP_MSG ops then BinMsg else Response)
                    (p_message p) (p_msgHeader p) decompressedMsgBody of
               Some e \<Rightarrow> (conn, [], Some e)
             | None \<Rightarrow>
                 (conn,
                  [Message (if opCode (p_msgHeader p) = OP_MSG ops then BinMsg else Response)
                     (p_msgHeader p) (p_message p) decompressedMsgBody],
                  None)))"

section \<open>dataHandler\<close>

definition emit :: "effect \<Rightarrow> outcome \<Rightarrow> outcome" where
  "emit e r = (case r of (conn, es, x) \<Rightarrow> (conn, e # es, x))"

definition reset :: "connection \<Rightarrow> connection" where
  "reset conn = conn\<lparr>buffer := None, sizeOfMessage := 0, bytesRead := 0, stubBuffer := None\<rparr>"

text \<open>
  The two tests of the loop on the held state: \<open>conn.bytesRead > 0 && conn.sizeOfMessage > 0\<close>
  and \<open>conn.stubBuffer != null && conn.stubBuffer.length > 0\<close>.
\<close>

definition accumulating :: "connection \<Rightarrow> bool" where
  "accumulating conn = (bytesRead conn > 0 \<and> sizeOfMessage conn > 0)"

definition stub_held :: "connection \<Rightarrow> bool" where
  "stub_held conn = (case stubBuffer conn of None \<Rightarrow> False | Some s \<Rightarrow> length s > 0)"

definition stub_bytes :: "connection \<Rightarrow> bytes" where
  "stub_bytes conn = (case stubBuffer conn of None \<Rightarrow> [] | Some s \<Rightarrow> s)"

definition frameLength :: "bytes \<Rightarrow> int" where
  "frameLength data = int32LE (data ! 0) (data ! 1) (data ! 2) (data ! 3)"

text \<open>
  The \<open>while (data.length > 0)\<close> loop of the data handler, one unfolding per
  iteration, with the branches in the source's order. Where the source sets
  \<open>data = SafeBuffer.alloc(0)\<close> to leave the loop, the model goes round once more with
  \<open>alloc 0\<close>. In the branch that holds a stub and still has at most 4 bytes, the source
  builds \<open>newStubBuffer\<close> from the stub and the chunk and never stores it: the
  connection is left as it is. The first error path returns at once; an exception
  leaves the loop with the connection as it is at that point.
\<close>

definition loop_measure :: "connection \<Rightarrow> bytes \<Rightarrow> nat" where
  "loop_measure conn data =
     (if data = [] then 0
      else 1 + 2 * length data +
           (if accumulating conn then 1
            else if stub_held conn then 1 + 2 * length (stub_bytes conn) else 0))"

function dataLoop :: "externals \<Rightarrow> connection \<Rightarrow> bytes \<Rightarrow> outcome" where
  "dataLoop ops conn data =
    (if \<not> length data > 0 then (conn, [], None)
     else if accumulating conn then
       (if sizeOfMessage conn - bytesRead conn > int (length data) then
          (case copy data (buffer conn) (bytesRead conn) of
             Inl e \<Rightarrow> (conn, [], Some e)
           | Inr b \<Rightarrow>
               dataLoop ops
                 (conn\<lparr>buffer := Some b, bytesRead := bytesRead conn + int (length data)\<rparr>)
                 (alloc 0))
        else
          (case copy_to data (buffer conn) (bytesRead conn)
                  (sizeOfMessage conn - bytesRead conn) of
             Inl e \<Rightarrow> (conn, [], Some e)
           | Inr emitBuffer \<Rightarrow>
               (case processMessage ops emitBuffer of
                  Inl e \<Rightarrow> (reset conn, [], Some e)
                | Inr ev \<Rightarrow>
                    emit ev (dataLoop ops (reset conn)
                      (slice_from data (sizeOfMessage conn - bytesRead conn))))))
     else if stub_held conn then
       (if length (stub_bytes conn) + length data > 4 then
          dataLoop ops (reset conn)
            (overwrite
               (overwrite (alloc (length (stub_bytes conn) + length data)) 0 (stub_bytes conn))
               (length (stub_bytes conn)) data)
        else
          dataLoop ops conn (alloc 0))
     else if length data > 4 then
       (if frameLength data < 0 \<or> frameLength data > maxBsonMessageSize conn then
          (conn,
           [ParseError \<lparr>err = ''socketHandler'', trace = Some '''', bin = buffer conn,
              ps_sizeOfMessage = frameLength data, ps_bytesRead = bytesRead conn,
              ps_buffer = None, ps_stubBuffer = stubBuffer conn\<rparr>],
           None)
        else if frameLength data > 4 \<and> frameLength data < maxBsonMessageSize conn
                \<and> frameLength data > int (length data) then
          dataLoop ops
            (conn\<lparr>buffer := Some (overwrite (alloc (nat (frameLength data))) 0 data),
                  bytesRead := int (length data),
                  sizeOfMessage := frameLength data,
                  stubBuffer := None\<rparr>)
            (alloc 0)
        else if frameLength data > 4 \<and> frameLength data < maxBsonMessageSize conn
                \<and> frameLength data = int (length data) then
          (case processMessage ops data of
             Inl e \<Rightarrow> (reset conn, [], Some e)
           | Inr ev \<Rightarrow> emit ev (dataLoop ops (reset conn) (alloc 0)))
        else if frameLength data \<le> 4 \<or> frameLength data > maxBsonMessageSize conn then
          emit
            (ParseError \<lparr>err = ''socketHandler'', trace = None, bin = Some data,
               ps_sizeOfMessage = frameLength data, ps_bytesRead = 0,
               ps_buffer = Some None, ps_stubBuffer = None\<rparr>)
            (dataLoop ops (reset conn) (alloc 0))
        else
          (case processMessage ops (slice_to data (frameLength data)) of
             Inl e \<Rightarrow> (reset conn, [], Some e)
           | Inr ev \<Rightarrow>
               emit ev (dataLoop ops (reset conn) (slice_from data (frameLength data)))))
     else
       dataLoop ops (conn\<lparr>stubBuffer := Some (overwrite (alloc (length data)) 0 data)\<rparr>)
         (alloc 0))"
  by pat_completeness auto
termination
  by (relation "measure (\<lambda>(ops, conn, data). loop_measure conn data)")
     (auto simp: loop_measure_def alloc_def reset_def stub_held_def stub_bytes_def accumulating_def
        slice_from_def overwrite_def split: option.splits)

declare dataLoop.simps [simp del]

definition dataHandler :: "externals \<Rightarrow> connection \<Rightarrow> bytes \<Rightarrow> outcome" where
  "dataHandler ops conn data = dataLoop ops conn data"

text \<open>
  The chunks of a stream, fed in order. An exception that leaves the data handler ends
  the run.
\<close>

fun feed :: "externals \<Rightarrow> connection \<Rightarrow> bytes list \<Rightarrow> outcome" where
  "feed ops conn [] = (conn, [], None)"
| "feed ops conn (d # ds) =
     (case dataHandler ops conn d of
        (conn', es, Some e) \<Rightarrow> (conn', es, Some e)
      | (conn', es, None) \<Rightarrow>
          (case feed ops conn' ds of (conn'', es', x) \<Rightarrow> (conn'', es @ es', x)))"

section \<open>Connection accounting\<close>

text \<open>
  The module's variables: the id counter \<open>_id\<close>, \<open>connectionAccounting\<close>, whether a
  \<open>connectionAccountingSpy\<close> is installed, and the keys of \<open>connections\<close> (the object
  stored under a key is the connection itself and is not kept here).
\<close>

record globals =
  next_id :: nat
  connectionAccounting :: bool
  connectionAccountingSpy :: bool
  connections :: "nat set"

definition deleteConnection :: "globals \<Rightarrow> nat \<Rightarrow> globals \<times> effect list" where
  "deleteConnection g i =
     (g\<lparr>connections := connections g - {i}\<rparr>,
      if connectionAccountingSpy g then [SpyDeleteConnection i] else [])"

definition addConnection :: "globals \<Rightarrow> nat \<Rightarrow> globals \<times> effect list" where
  "addConnection g i =
     (g\<lparr>connections := insert i (connections g)\<rparr>,
      if connectionAccountingSpy g then [SpyAddConnection i] else [])"

section \<open>The constructor\<close>

text \<open>
  The options the constructor reads. \<open>None\<close> is an option that is not given (or not of
  the type the constructor tests for). Timeouts and sizes are whole numbers.
\<close>

record socketOptions =
  opt_bson :: bool
  opt_keepAlive :: "bool option"
  opt_keepAliveInitialDelay :: "int option"
  opt_connectionTimeout :: "int option"
  opt_socketTimeout :: "int option"
  opt_maxBsonMessageSize :: "int option"

definition DEFAULT_MAX_BSON_MESSAGE_SIZE :: int where
  "DEFAULT_MAX_BSON_MESSAGE_SIZE = 1024 * 1024 * 16 * 4"

text \<open>
  \<open>Math.round(n / 2)\<close> for a whole number \<open>n\<close>: a half rounds towards plus infinity.
\<close>

definition round_half :: "int \<Rightarrow> int" where
  "round_half n = (n + 1) div 2"

definition orDefault :: "'a option \<Rightarrow> 'a \<Rightarrow> 'a" where
  "orDefault v d = (case v of None \<Rightarrow> d | Some x \<Rightarrow> x)"

text \<open>
  The constructor raises a \<open>TypeError\<close> when no bson parser is passed, before anything
  is changed, and when the socket is \<open>null\<close>, at \<open>this.socket.once\<close>, after \<open>_id\<close> has
  been advanced: the module's variables at the exception come with it.
\<close>

definition construct ::
  "globals \<Rightarrow> socket option \<Rightarrow> socketOptions \<Rightarrow>
     (exn \<times> globals) + (globals \<times> connection \<times> effect list)" where
  "construct g sock options =
     (if \<not> opt_bson options then Inl (TypeError, g)
      else
        (let st = orDefault (opt_socketTimeout options) 360000;
             kd = orDefault (opt_keepAliveInitialDelay options) 300000;
             conn = \<lparr>id_conn = next_id g,
                     maxBsonMessageSize =
                       (case opt_maxBsonMessageSize options of
                          None \<Rightarrow> DEFAULT_MAX_BSON_MESSAGE_SIZE
                        | Some m \<Rightarrow> if m = 0 then DEFAULT_MAX_BSON_MESSAGE_SIZE else m),
                     socketTimeout = st,
                     keepAlive = orDefault (opt_keepAlive options) True,
                     keepAliveInitialDelay = (if kd > st then round_half st else kd),
                     connectionTimeout = orDefault (opt_connectionTimeout options) 30000,
                     destroyed = False,
                     socket = sock,
                     bytesRead = 0,
                     sizeOfMessage = 0,
                     buffer = None,
                     stubBuffer = None\<rparr>;
             g1 = g\<lparr>next_id := next_id g + 1\<rparr>
         in if sock = None then Inl (TypeError, g1)
            else if connectionAccounting g1
            then (case addConnection g1 (id_conn conn) of (g2, es) \<Rightarrow> Inr (g2, conn, es))
            else Inr (g1, conn, [])))"

section \<open>destroy, write, isConnected\<close>

text \<open>
  \<open>destroy(options, callback)\<close>: \<open>force\<close> is the \<open>force\<close> key of the options if given,
  \<open>cb\<close> says whether a callback is passed. Without \<open>force\<close> the connection calls
  \<open>socket.end\<close> with a function that the transport calls later; \<open>endCallback\<close> is that
  function.
\<close>

definition destroy ::
  "globals \<Rightarrow> connection \<Rightarrow> bool option \<Rightarrow> bool \<Rightarrow> globals \<times> connection \<times> effect list" where
  "destroy g conn force cb =
     (case (if connectionAccounting g then deleteConnection g (id_conn conn) else (g, [])) of
        (g', es) \<Rightarrow>
          (case socket conn of
             None \<Rightarrow> (g', conn\<lparr>destroyed := True\<rparr>, es)
           | Some s \<Rightarrow>
               if orDefault force False then
                 (g', conn\<lparr>destroyed := True\<rparr>,
                  es @ [SocketDestroy] @ (if cb then [DestroyCallback None] else []))
               else (g', conn, es @ [SocketEnd cb])))"

definition endCallback :: "connection \<Rightarrow> bool \<Rightarrow> string option \<Rightarrow> connection \<times> effect list" where
  "endCallback conn cb e =
     (conn\<lparr>destroyed := True\<rparr>, if cb then [DestroyCallback e] else [])"



section \<open>The socket's error, timeout and close\<close>




section \<open>The parse-state invariant\<close>

text \<open>
  The states the loop can be in between two chunks: no buffer, both counters 0 and a stub of
  1 to 4 bytes or none; or a buffer as long as the announced message, partly filled, and no
  stub.
\<close>

definition wf_parse :: "connection \<Rightarrow> bool" where
  "wf_parse c =
     (case buffer c of
        None \<Rightarrow> bytesRead c = 0 \<and> sizeOfMessage c = 0 \<and>
                 (case stubBuffer c of None \<Rightarrow> True | Some s \<Rightarrow> 0 < length s \<and> length s \<le> 4)
      | Some b \<Rightarrow> int (length b) = sizeOfMessage c \<and> 0 < bytesRead c \<and>
                  bytesRead c < sizeOfMessage c \<and> stubBuffer c = None)"

definition buffer_held :: "connection \<Rightarrow> bool" where
  "buffer_held conn = (case buffer conn of None \<Rightarrow> False | Some b \<Rightarrow> length b > 0)"

text \<open>
  The invariant as the specification words it: at most one of the stub buffer and the
  accumulating buffer is non-empty, and while accumulating
  \<open>0 \<le> bytesRead \<le> sizeOfMessage\<close>.
\<close>

definition parse_invariant :: "connection \<Rightarrow> bool" where
  "parse_invariant conn =
     (\<not> (stub_held conn \<and> buffer_held conn) \<and>
      (if accumulating conn \<or> buffer_held conn
       then 0 \<le> bytesRead conn \<and> bytesRead conn \<le> sizeOfMessage conn else True))"

section \<open>Notifications\<close>



text \<open>
  What one call of \<open>destroy\<close> does to the outside, read off the connection, the module's
  variables and the arguments: the spy is told of the deletion if accounting and a spy
  are on; a socket is destroyed, and the callback called, with \<open>force\<close>, and ended
  otherwise.
\<close>

definition destroy_effects :: "globals \<Rightarrow> connection \<Rightarrow> bool option \<Rightarrow> bool \<Rightarrow> effect list" where
  "destroy_effects g conn force cb =
     (if connectionAccounting g \<and> connectionAccountingSpy g
      then [SpyDeleteConnection (id_conn conn)] else []) @
     (case socket conn of
        None \<Rightarrow> []
      | Some s \<Rightarrow>
          if orDefault force False
          then SocketDestroy # (if cb then [DestroyCallback None] else [])
          else [SocketEnd cb])"

section \<open>Concrete values\<close>

text \<open>
  An instance of the parameters: the opcodes of the MongoDB wire protocol, and response
  constructors that read the fixed fields at the start of the body with \<open>readInt32LE\<close>,
  as the driver's do: \<open>Response\<close> five int32 fields (20 bytes), \<open>BinMsg\<close> the flag word
  (4 bytes). On a shorter body the read raises a \<open>RangeError\<close>.
\<close>

definition driverConstructors ::
  "responseConstructor \<Rightarrow> bytes \<Rightarrow> msgHeader \<Rightarrow> bytes \<Rightarrow> exn option" where
  "driverConstructors c message msgHeader body =
     (case c of
        Response \<Rightarrow> (if length body < 20 then Some RangeError else None)
      | BinMsg \<Rightarrow> (if length body < 4 then Some RangeError else None))"

definition mongo_ops :: externals where
  "mongo_ops = \<lparr>OP_MSG = 2013, OP_COMPRESSED = 2012, newResponse = driverConstructors\<rparr>"

text \<open>
  A connection as the constructor makes it from the defaults, and a reply frame of 36
  bytes: the 16-byte header and a body of 20 zero bytes.
\<close>

definition sock0 :: socket where
  "sock0 = \<lparr>sock_destroyed = False, sock_writable = True\<rparr>"

definition globals0 :: globals where
  "globals0 = \<lparr>next_id = 0, connectionAccounting = False, connectionAccountingSpy = False,
     connections = {}\<rparr>"

definition options0 :: socketOptions where
  "options0 = \<lparr>opt_bson = True, opt_keepAlive = None, opt_keepAliveInitialDelay = None,
     opt_connectionTimeout = None, opt_socketTimeout = None, opt_maxBsonMessageSize = None\<rparr>"

definition conn0 :: connection where
  "conn0 = \<lparr>id_conn = 0, maxBsonMessageSize = 67108864, socketTimeout = 360000,
     keepAlive = True, keepAliveInitialDelay = 300000, connectionTimeout = 30000,
     destroyed = False, socket = Some sock0,
     bytesRead = 0, sizeOfMessage = 0, buffer = None, stubBuffer = None\<rparr>"

definition body20 :: bytes where
  "body20 = [0, 0, 0, 0, 0, 0, 0, 0, 0, 0, 0, 0, 0, 0, 0, 0, 0, 0, 0, 0]"

definition frame36 :: bytes where
  "frame36 = [36, 0, 0, 0, 7, 0, 0, 0, 0, 0, 0, 0, 1, 0, 0, 0] @ body20"

definition header36 :: msgHeader where
  "header36 = \<lparr>length_hdr = 36, requestId = 7, responseTo = 0, opCode = 1,
     fromCompressed = False\<rparr>"

text \<open>
  A stream cut into chunks of one byte each; a chunk that starts with the length \<open>-1\<close>;
  the object the first error path sends for a chunk met with no held state; 36 bytes
  whose announced length is the default \<open>maxBsonMessageSize\<close>; two compressed frames of
  28 bytes (original opcode 2013, compressor 0, three compressed bytes), one announcing
  an uncompressed size of 3 and one of 5, and what \<open>processMessage\<close> hands to the
  decompressor for each; the corrupt-message error; and module variables with accounting
  and a spy switched on and connection 0 registered.
\<close>

definition single_bytes :: "bytes \<Rightarrow> bytes list" where
  "single_bytes b = map (\<lambda>x. [x]) b"

definition bad_prefix :: bytes where
  "bad_prefix = [255, 255, 255, 255]"

definition rejected :: "bytes \<Rightarrow> parseErrorObject" where
  "rejected chunk = \<lparr>err = ''socketHandler'', trace = Some '''', bin = None,
     ps_sizeOfMessage = frameLength chunk, ps_bytesRead = 0, ps_buffer = None,
     ps_stubBuffer = None\<rparr>"

definition frame_at_max :: bytes where
  "frame_at_max = [0, 0, 0, 4, 7, 0, 0, 0, 0, 0, 0, 0, 1, 0, 0, 0] @ body20"

definition header_at_max :: msgHeader where
  "header_at_max = \<lparr>length_hdr = 67108864, requestId = 7, responseTo = 0, opCode = 1,
     fromCompressed = False\<rparr>"

definition header28 :: msgHeader where
  "header28 = \<lparr>length_hdr = 28, requestId = 7, responseTo = 0, opCode = 2012,
     fromCompressed = False\<rparr>"

definition compressed_short :: bytes where
  "compressed_short = [28, 0, 0, 0, 7, 0, 0, 0, 0, 0, 0, 0, 220, 7, 0, 0,
                       221, 7, 0, 0, 3, 0, 0, 0, 0, 1, 2, 3]"

definition pending_short :: pending where
  "pending_short = \<lparr>p_compressorID = Some 0, p_compressed = [1, 2, 3],
     p_msgHeader = \<lparr>length_hdr = 3, requestId = 7, responseTo = 0, opCode = 2013,
                     fromCompressed = True\<rparr>,
     p_message = compressed_short\<rparr>"

definition compressed_five :: bytes where
  "compressed_five = [28, 0, 0, 0, 7, 0, 0, 0, 0, 0, 0, 0, 220, 7, 0, 0,
                      221, 7, 0, 0, 5, 0, 0, 0, 0, 1, 2, 3]"

definition pending_five :: pending where
  "pending_five = \<lparr>p_compressorID = Some 0, p_compressed = [1, 2, 3],
     p_msgHeader = \<lparr>length_hdr = 5, requestId = 7, responseTo = 0, opCode = 2013,
                     fromCompressed = True\<rparr>,
     p_message = compressed_five\<rparr>"

definition body_five :: bytes where
  "body_five = [0, 0, 0, 0, 9]"

definition corrupt_message :: effect where
  "corrupt_message = ErrorEvent (MongoError
     ''Decompressing a compressed message from the server failed. The message is corrupt.'')"

definition accounting1 :: globals where
  "accounting1 = \<lparr>next_id = 1, connectionAccounting = True, connectionAccountingSpy = True,
     connections = {0}\<rparr>"

section \<open>Basic facts\<close>

lemma overwrite_alloc [simp]: "overwrite (alloc (length d)) 0 d = d"
  by (simp add: overwrite_def alloc_def)

lemma overwrite_concat [simp]:
  "overwrite (overwrite (alloc (length s + length d)) 0 s) (length s) d = s @ d"
  by (simp add: overwrite_def alloc_def)

lemma length_overwrite [simp]: "length (overwrite t i s) = length t"
  by (simp add: overwrite_def)

lemma alloc_0 [simp]: "alloc 0 = []"
  by (simp add: alloc_def)

lemma length_alloc [simp]: "length (alloc n) = n"
  by (simp add: alloc_def)

lemma slice_from_nonneg [simp]: "0 \<le> n \<Longrightarrow> slice_from d n = drop (nat n) d"
  by (simp add: slice_from_def)

lemma slice_to_nonneg [simp]: "0 \<le> n \<Longrightarrow> slice_to d n = take (nat n) d"
  by (simp add: slice_to_def)

lemma dataLoop_Nil [simp]: "dataLoop ops c [] = (c, [], None)"
  by (simp add: dataLoop.simps)

lemma fst_emit [simp]: "fst (emit e r) = fst r"
  by (simp add: emit_def split: prod.splits)

lemma emit_done [simp]: "emit e (c, es, x) = (c, e # es, x)"
  by (simp add: emit_def)

lemma accumulating_reset [simp]: "\<not> accumulating (reset c)"
  by (simp add: accumulating_def reset_def)

lemma stub_held_reset [simp]: "\<not> stub_held (reset c)"
  by (simp add: stub_held_def reset_def)

lemma loop_more:
  assumes "data \<noteq> []" "accumulating c" "sizeOfMessage c - bytesRead c > int (length data)"
    "buffer c = Some b"
  shows "dataLoop ops c data =
    (c\<lparr>buffer := Some (overwrite b (nat (bytesRead c)) data),
       bytesRead := bytesRead c + int (length data)\<rparr>, [], None)"
proof -
  have "0 \<le> bytesRead c" using assms(2) by (simp add: accumulating_def)
  then show ?thesis
    using assms by (subst dataLoop.simps) (simp add: copy_def)
qed

lemma loop_complete:
  assumes "data \<noteq> []" "accumulating c" "sizeOfMessage c - bytesRead c \<le> int (length data)"
    "bytesRead c \<le> sizeOfMessage c" "buffer c = Some b"
  shows "dataLoop ops c data =
    (case processMessage ops
            (overwrite b (nat (bytesRead c)) (take (nat (sizeOfMessage c - bytesRead c)) data)) of
       Inl e \<Rightarrow> (reset c, [], Some e)
     | Inr ev \<Rightarrow>
         emit ev (dataLoop ops (reset c) (drop (nat (sizeOfMessage c - bytesRead c)) data)))"
proof -
  have "0 \<le> bytesRead c" using assms(2) by (simp add: accumulating_def)
  then show ?thesis
    using assms by (subst dataLoop.simps) (simp add: copy_to_def split: sum.splits)
qed

lemma loop_stub_concat:
  assumes "data \<noteq> []" "\<not> accumulating c" "stubBuffer c = Some s" "s \<noteq> []"
    "length s + length data > 4"
  shows "dataLoop ops c data = dataLoop ops (reset c) (s @ data)"
  using assms by (subst dataLoop.simps) (simp add: stub_held_def stub_bytes_def)

lemma loop_stub_keep:
  assumes "data \<noteq> []" "\<not> accumulating c" "stubBuffer c = Some s" "s \<noteq> []"
    "length s + length data \<le> 4"
  shows "dataLoop ops c data = (c, [], None)"
  using assms by (subst dataLoop.simps) (simp add: stub_held_def stub_bytes_def)

lemma loop_short:
  assumes "data \<noteq> []" "\<not> accumulating c" "\<not> stub_held c" "length data \<le> 4"
  shows "dataLoop ops c data = (c\<lparr>stubBuffer := Some data\<rparr>, [], None)"
  using assms by (subst dataLoop.simps) simp

lemma loop_reject:
  assumes "\<not> accumulating c" "\<not> stub_held c" "length data > 4"
    "frameLength data < 0 \<or> frameLength data > maxBsonMessageSize c"
  shows "dataLoop ops c data =
    (c, [ParseError \<lparr>err = ''socketHandler'', trace = Some '''', bin = buffer c,
              ps_sizeOfMessage = frameLength data, ps_bytesRead = bytesRead c,
              ps_buffer = None, ps_stubBuffer = stubBuffer c\<rparr>], None)"
proof -
  have "data \<noteq> []" using assms(3) by auto
  then show ?thesis
    using assms by (subst dataLoop.simps) simp
qed

lemma loop_start:
  assumes "\<not> accumulating c" "\<not> stub_held c" "length data > 4"
    "frameLength data < maxBsonMessageSize c"
    "frameLength data > int (length data)"
  shows "dataLoop ops c data =
    (c\<lparr>buffer := Some (overwrite (alloc (nat (frameLength data))) 0 data),
       bytesRead := int (length data), sizeOfMessage := frameLength data,
       stubBuffer := None\<rparr>, [], None)"
proof -
  have "data \<noteq> []" using assms(3) by auto
  then show ?thesis
    using assms by (subst dataLoop.simps) simp
qed

lemma loop_exact:
  assumes "\<not> accumulating c" "\<not> stub_held c" "length data > 4"
    "frameLength data < maxBsonMessageSize c"
    "frameLength data = int (length data)"
  shows "dataLoop ops c data =
    (case processMessage ops data of
       Inl e \<Rightarrow> (reset c, [], Some e)
     | Inr ev \<Rightarrow> (reset c, [ev], None))"
proof -
  have "data \<noteq> []" using assms(3) by auto
  then show ?thesis
    using assms by (subst dataLoop.simps) (simp split: sum.splits)
qed

lemma loop_small:
  assumes "\<not> accumulating c" "\<not> stub_held c" "length data > 4"
    "0 \<le> frameLength data" "frameLength data \<le> 4"
    "frameLength data \<le> maxBsonMessageSize c"
  shows "dataLoop ops c data =
    (reset c, [ParseError \<lparr>err = ''socketHandler'', trace = None, bin = Some data,
               ps_sizeOfMessage = frameLength data, ps_bytesRead = 0,
               ps_buffer = Some None, ps_stubBuffer = None\<rparr>], None)"
proof -
  have "data \<noteq> []" using assms(3) by auto
  then show ?thesis
    using assms by (subst dataLoop.simps) simp
qed

lemma loop_split_at_max:
  assumes "\<not> accumulating c" "\<not> stub_held c" "length data > 4"
    "4 < frameLength data" 
    "frameLength data = maxBsonMessageSize c"
  shows "dataLoop ops c data =
    (case processMessage ops (take (nat (frameLength data)) data) of
       Inl e \<Rightarrow> (reset c, [], Some e)
     | Inr ev \<Rightarrow> emit ev (dataLoop ops (reset c) (drop (nat (frameLength data)) data)))"
proof -
  have "data \<noteq> []" using assms(3) by auto
  then show ?thesis
    using assms by (subst dataLoop.simps) (simp split: sum.splits)
qed

lemma loop_split_longer:
  assumes "\<not> accumulating c" "\<not> stub_held c" "length data > 4"
    "4 < frameLength data" "frameLength data \<le> maxBsonMessageSize c"
    "frameLength data < int (length data)"
  shows "dataLoop ops c data =
    (case processMessage ops (take (nat (frameLength data)) data) of
       Inl e \<Rightarrow> (reset c, [], Some e)
     | Inr ev \<Rightarrow> emit ev (dataLoop ops (reset c) (drop (nat (frameLength data)) data)))"
proof -
  have "data \<noteq> []" using assms(3) by auto
  then show ?thesis
    using assms by (subst dataLoop.simps) (simp split: sum.splits)
qed

lemma wf_reset [simp]: "wf_parse (reset c)"
  by (simp add: wf_parse_def reset_def)

lemma wf_accumulating:
  assumes "wf_parse c" "accumulating c"
  obtains b where "buffer c = Some b" "int (length b) = sizeOfMessage c"
    "bytesRead c < sizeOfMessage c" "stubBuffer c = None"
  using assms by (cases "buffer c") (auto simp: wf_parse_def accumulating_def)

lemma wf_idle:
  assumes "wf_parse c" "\<not> accumulating c"
  shows "buffer c = None \<and> bytesRead c = 0 \<and> sizeOfMessage c = 0"
  using assms by (cases "buffer c") (auto simp: wf_parse_def accumulating_def)

lemma wf_no_stub:
  assumes wf: "wf_parse c" and ns: "\<not> stub_held c"
  shows "wf_parse (fst (dataLoop ops c d))"
  using wf ns
proof (induction d arbitrary: c rule: length_induct)
  case (1 d)
  note IH = "1.IH" and wf = "1.prems"(1) and ns = "1.prems"(2)
  show ?case
  proof (cases "d = []")
    case True
    then show ?thesis using wf by simp
  next
    case ne: False
    show ?thesis
    proof (cases "accumulating c")
      case acc: True
      from wf acc obtain b where b: "buffer c = Some b" "int (length b) = sizeOfMessage c"
        "bytesRead c < sizeOfMessage c" "stubBuffer c = None"
        by (rule wf_accumulating)
      have pos: "0 < bytesRead c" using acc by (simp add: accumulating_def)
      show ?thesis
      proof (cases "sizeOfMessage c - bytesRead c > int (length d)")
        case True
        then show ?thesis
          using loop_more [OF ne acc True b(1), of ops] b pos
          by (simp add: wf_parse_def)
      next
        case False
        then have le: "sizeOfMessage c - bytesRead c \<le> int (length d)" by simp
        have shorter: "length (drop (nat (sizeOfMessage c - bytesRead c)) d) < length d"
          using b(3) ne by simp
        have rec: "wf_parse (fst (dataLoop ops (reset c)
                     (drop (nat (sizeOfMessage c - bytesRead c)) d)))"
          using IH shorter by simp
        from b(3) have "bytesRead c \<le> sizeOfMessage c" by simp
        from loop_complete [OF ne acc le this b(1), of ops] rec
        show ?thesis by (simp split: sum.splits)
      qed
    next
      case idle: False
      from wf idle have st: "buffer c = None" "bytesRead c = 0" "sizeOfMessage c = 0"
        using wf_idle by blast+
      show ?thesis
      proof (cases "length d > 4")
        case False
        then have short: "length d \<le> 4" by simp
        from loop_short [OF ne idle ns short, of ops] st ne short
        show ?thesis by (simp add: wf_parse_def)
      next
        case long: True
        consider (reject) "frameLength d < 0 \<or> frameLength d > maxBsonMessageSize c"
          | (small) "0 \<le> frameLength d" "frameLength d \<le> 4" "frameLength d \<le> maxBsonMessageSize c"
          | (start) "4 < frameLength d" "frameLength d < maxBsonMessageSize c" "frameLength d > int (length d)"
          | (exact) "4 < frameLength d" "frameLength d < maxBsonMessageSize c" "frameLength d = int (length d)"
          | (at_max) "4 < frameLength d" "frameLength d = maxBsonMessageSize c"
          | (longer) "4 < frameLength d" "frameLength d \<le> maxBsonMessageSize c" "frameLength d < int (length d)"
          by linarith
        then show ?thesis
        proof cases
          case reject
          from loop_reject [OF idle ns long reject, of ops] wf show ?thesis by simp
        next
          case small
          from loop_small [OF idle ns long small, of ops] show ?thesis by simp
        next
          case start
          from loop_start [OF idle ns long start(2,3), of ops] start long ne
          show ?thesis by (simp add: wf_parse_def)
        next
          case exact
          from loop_exact [OF idle ns long exact(2,3), of ops]
          show ?thesis by (simp split: sum.splits)
        next
          case at_max
          have shorter: "length (drop (nat (frameLength d)) d) < length d"
            using at_max(1) ne by simp
          have rec: "wf_parse (fst (dataLoop ops (reset c) (drop (nat (frameLength d)) d)))"
            using IH shorter by simp
          from loop_split_at_max [OF idle ns long at_max, of ops] rec
          show ?thesis by (simp split: sum.splits)
        next
          case longer
          have shorter: "length (drop (nat (frameLength d)) d) < length d"
            using longer(1) ne by simp
          have rec: "wf_parse (fst (dataLoop ops (reset c) (drop (nat (frameLength d)) d)))"
            using IH shorter by simp
          from loop_split_longer [OF idle ns long longer, of ops] rec
          show ?thesis by (simp split: sum.splits)
        qed
      qed
    qed
  qed
qed

lemma wf_dataLoop:
  assumes wf: "wf_parse c"
  shows "wf_parse (fst (dataLoop ops c d))"
proof (cases "stub_held c")
  case False
  with wf show ?thesis by (rule wf_no_stub)
next
  case held: True
  then obtain s where s: "stubBuffer c = Some s" "s \<noteq> []"
    by (auto simp: stub_held_def split: option.splits)
  have idle: "\<not> accumulating c"
    using wf s by (cases "buffer c") (auto simp: wf_parse_def accumulating_def)
  show ?thesis
  proof (cases "d = []")
    case True
    then show ?thesis using wf by simp
  next
    case ne: False
    show ?thesis
    proof (cases "length s + length d > 4")
      case True
      from loop_stub_concat [OF ne idle s True, of ops]
      show ?thesis by (simp add: wf_no_stub)
    next
      case False
      then have "length s + length d \<le> 4" by simp
      from loop_stub_keep [OF ne idle s this, of ops] wf
      show ?thesis by simp
    qed
  qed
qed

lemma wf_feed: "wf_parse c \<Longrightarrow> wf_parse (fst (feed ops c ds))"
proof (induction ds arbitrary: c)
  case Nil
  then show ?case by simp
next
  case (Cons d ds)
  have step: "wf_parse (fst (dataHandler ops c d))"
    using Cons.prems by (simp add: dataHandler_def wf_dataLoop)
  obtain c' es x where r: "dataHandler ops c d = (c', es, x)"
    by (cases "dataHandler ops c d") auto
  with step have wf': "wf_parse c'" by simp
  show ?case
  proof (cases x)
    case None
    obtain c'' es' x' where r': "feed ops c' ds = (c'', es', x')"
      by (cases "feed ops c' ds") auto
    from Cons.IH [OF wf'] show ?thesis using r r' None by simp
  next
    case (Some e)
    then show ?thesis using r wf' by simp
  qed
qed

lemma construct_defaults:
  "construct globals0 (Some sock0) options0 = Inr (globals0\<lparr>next_id := 1\<rparr>, conn0, [])"
  by (simp add: construct_def globals0_def options0_def conn0_def orDefault_def
      DEFAULT_MAX_BSON_MESSAGE_SIZE_def)

lemma wf_parse_invariant: "wf_parse c \<Longrightarrow> parse_invariant c"
  by (cases "buffer c"; cases "stubBuffer c")
     (auto simp: wf_parse_def parse_invariant_def stub_held_def buffer_held_def
        accumulating_def)

lemma wf_constructed:
  assumes "construct g sock options = Inr (g', conn, es)"
  shows "wf_parse conn"
  using assms
  by (auto simp: construct_def wf_parse_def Let_def split: if_splits prod.splits)

section \<open>Facts about the concrete values\<close>

lemma conn0_idle [simp]: "\<not> accumulating conn0" "\<not> stub_held conn0"
  by (simp_all add: accumulating_def stub_held_def conn0_def)

lemma reset_conn0 [simp]: "reset conn0 = conn0"
  by (simp add: reset_def conn0_def)

lemma reset_empty:
  assumes "bytesRead conn = 0" "sizeOfMessage conn = 0" "buffer conn = None"
    "stubBuffer conn = None"
  shows "reset conn = conn"
  using assms by (cases conn) (simp add: reset_def)

lemma empty_idle:
  assumes "bytesRead conn = 0" "stubBuffer conn = None"
  shows "\<not> accumulating conn" "\<not> stub_held conn"
  using assms by (simp_all add: accumulating_def stub_held_def)

lemma length_frame36: "length frame36 = 36"
  by (simp add: frame36_def body20_def)

lemma frameLength_frame36: "frameLength frame36 = 36"
  by (simp add: frameLength_def frame36_def int32LE_def)

lemma frameLength_bad: "frameLength (bad_prefix @ rest) = - 1"
  by (simp add: frameLength_def bad_prefix_def int32LE_def)

lemma length_at_max: "length frame_at_max = 36"
  by (simp add: frame_at_max_def body20_def)

lemma frameLength_at_max: "frameLength frame_at_max = 67108864"
  by (simp add: frameLength_def frame_at_max_def int32LE_def)

lemma processMessage_frame36:
  "processMessage mongo_ops frame36 = Inr (Message Response header36 frame36 body20)"
  by (simp add: processMessage_def parseHeader_def readInt32LE_def int32LE_def frame36_def
      header36_def mongo_ops_def driverConstructors_def MESSAGE_HEADER_SIZE_def slice_from_def
      body20_def)

lemma processMessage_at_max:
  "processMessage mongo_ops frame_at_max =
     Inr (Message Response header_at_max frame_at_max body20)"
  by (simp add: processMessage_def parseHeader_def readInt32LE_def int32LE_def
      frame_at_max_def header_at_max_def mongo_ops_def driverConstructors_def
      MESSAGE_HEADER_SIZE_def slice_from_def body20_def)

lemma parseHeader_compressed_five: "parseHeader compressed_five = Inr header28"
  by (simp add: parseHeader_def readInt32LE_def int32LE_def compressed_five_def header28_def)

lemma processMessage_compressed_five:
  "processMessage mongo_ops compressed_five = Inr (Decompress pending_five)"
  by (simp add: processMessage_def parseHeader_def readInt32LE_def int32LE_def
      compressed_five_def pending_five_def mongo_ops_def MESSAGE_HEADER_SIZE_def slice_from_def
      byte_at_def)

lemma processMessage_compressed_short:
  "processMessage mongo_ops compressed_short = Inr (Decompress pending_short)"
  by (simp add: processMessage_def parseHeader_def readInt32LE_def int32LE_def
      compressed_short_def pending_short_def mongo_ops_def MESSAGE_HEADER_SIZE_def slice_from_def
      byte_at_def)

lemma whole_frame36:
  "dataHandler mongo_ops conn0 frame36 =
     (conn0, [Message Response header36 frame36 body20], None)"
proof -
  have "length frame36 > 4" "frameLength frame36 < maxBsonMessageSize conn0"
    "frameLength frame36 = int (length frame36)"
    by (simp_all add: frameLength_frame36 length_frame36) (simp add: conn0_def)
  from loop_exact [OF conn0_idle this, of mongo_ops]
  show ?thesis by (simp add: dataHandler_def processMessage_frame36)
qed

lemma first_byte:
  "dataHandler ops conn0 [36] = (conn0\<lparr>stubBuffer := Some [36]\<rparr>, [], None)"
  unfolding dataHandler_def
  by (rule loop_short) simp_all

lemma stub_drops_byte:
  "dataHandler ops (conn0\<lparr>stubBuffer := Some [36]\<rparr>) [b] =
     (conn0\<lparr>stubBuffer := Some [36]\<rparr>, [], None)"
  unfolding dataHandler_def
  by (rule loop_stub_keep [where s = "[36]"]) (simp_all add: accumulating_def conn0_def)

lemma feed_dropped:
  "feed ops (conn0\<lparr>stubBuffer := Some [36]\<rparr>) (single_bytes bs) =
     (conn0\<lparr>stubBuffer := Some [36]\<rparr>, [], None)"
  by (induction bs) (simp_all add: single_bytes_def stub_drops_byte)

lemma rejected_five:
  "dataHandler mongo_ops conn0 (bad_prefix @ [0]) =
     (conn0, [ParseError (rejected (bad_prefix @ [0]))], None)"
proof -
  have long: "length (bad_prefix @ [0]) > 4" by (simp add: bad_prefix_def)
  have neg: "frameLength (bad_prefix @ [0]) < 0
      \<or> frameLength (bad_prefix @ [0]) > maxBsonMessageSize conn0"
    by (simp add: frameLength_bad)
  from loop_reject [OF conn0_idle long neg, of mongo_ops]
  show ?thesis by (simp add: dataHandler_def rejected_def conn0_def)
qed

lemma short_chunk_is_stub:
  "dataHandler ops conn0 bad_prefix = (conn0\<lparr>stubBuffer := Some bad_prefix\<rparr>, [], None)"
  unfolding dataHandler_def by (rule loop_short) (simp_all add: bad_prefix_def)

lemma construct_accounted:
  "construct (accounting1\<lparr>next_id := 0, connections := {}\<rparr>) (Some sock0) options0 =
     Inr (accounting1, conn0, [SpyAddConnection 0])"
  by (simp add: construct_def accounting1_def options0_def conn0_def orDefault_def
      DEFAULT_MAX_BSON_MESSAGE_SIZE_def addConnection_def)

lemma destroy_result:
  "destroy g conn force cb =
     (if connectionAccounting g
      then g\<lparr>connections := connections g - {id_conn conn}\<rparr> else g,
      if socket conn = None \<or> orDefault force False
      then conn\<lparr>destroyed := True\<rparr> else conn,
      destroy_effects g conn force cb)"
  by (cases "socket conn")
     (simp_all add: destroy_def deleteConnection_def destroy_effects_def)



section \<open>Reassembly of a fragmented frame\<close>

lemma overwrite_append:
  assumes "length q \<le> k"
  shows "overwrite (P @ replicate k 0) (length P) q = (P @ q) @ replicate (k - length q) 0"
  using assms by (simp add: overwrite_def)

lemma feed_empty_chunks:
  assumes "concat ps = []"
  shows "feed ops c ps = (c, [], None)"
  using assms by (induction ps) (simp_all add: dataHandler_def)

text \<open>
  While a frame \<open>B\<close> is accumulated, with its first bytes \<open>P\<close> in the buffer, the rest
  of it may come in any pieces: the last one completes the frame.
\<close>

lemma feed_accumulating:
  assumes frame: "processMessage ops B = Inr ev"
    and st: "bytesRead c = int (length P)" "sizeOfMessage c = int (length B)"
      "buffer c = Some (P @ replicate (length B - length P) 0)"
    and P: "P \<noteq> []" "length P < length B" "P = take (length P) B"
    and rest: "concat ps = drop (length P) B"
  shows "feed ops c ps = (reset c, [ev], None)"
  using st P rest
proof (induction ps arbitrary: c P)
  case Nil
  then show ?case by simp
next
  case (Cons q qs)
  have "0 < length P" "0 < length B" using Cons.prems(4,5) by auto
  then have acc: "accumulating c"
    using Cons.prems(1,2) by (simp add: accumulating_def)
  have rem: "sizeOfMessage c - bytesRead c = int (length B - length P)"
    using Cons.prems by simp
  have qle: "length q \<le> length B - length P"
  proof -
    have "length q \<le> length (concat (q # qs))" by simp
    also have "\<dots> = length B - length P" using Cons.prems(7) by simp
    finally show ?thesis .
  qed
  have qpre: "q = take (length q) (drop (length P) B)"
    using Cons.prems(7) by (metis append_eq_conv_conj concat.simps(2))
  show ?case
  proof (cases "q = []")
    case True
    then have "feed ops c (q # qs) = feed ops c qs" by (simp add: dataHandler_def)
    moreover have "concat qs = drop (length P) B" using Cons.prems(7) True by simp
    ultimately show ?thesis using Cons.IH [OF Cons.prems(1-6)] by simp
  next
    case ne: False
    show ?thesis
    proof (cases "length q < length B - length P")
      case True
      then have more: "sizeOfMessage c - bytesRead c > int (length q)" using rem by simp
      let ?c' = "c\<lparr>buffer := Some (overwrite (P @ replicate (length B - length P) 0)
                                    (nat (bytesRead c)) q),
                    bytesRead := bytesRead c + int (length q)\<rparr>"
      have step: "dataHandler ops c q = (?c', [], None)"
        using loop_more [OF ne acc more Cons.prems(3), of ops] by (simp add: dataHandler_def)
      have buf: "overwrite (P @ replicate (length B - length P) 0) (nat (bytesRead c)) q =
          (P @ q) @ replicate (length B - length (P @ q)) 0"
        using overwrite_append [OF qle, of P] Cons.prems(1) by simp
      have PQ: "P @ q = take (length (P @ q)) B"
        using Cons.prems(6) qpre by (metis append_take_drop_id length_append take_add)
      have "feed ops ?c' qs = (reset ?c', [ev], None)"
      proof (rule Cons.IH [where P = "P @ q"])
        show "bytesRead ?c' = int (length (P @ q))" using Cons.prems(1) by simp
        show "sizeOfMessage ?c' = int (length B)" using Cons.prems(2) by simp
        show "buffer ?c' = Some ((P @ q) @ replicate (length B - length (P @ q)) 0)"
          using buf by simp
        show "P @ q \<noteq> []" using ne by simp
        show "length (P @ q) < length B" using True by simp
        show "P @ q = take (length (P @ q)) B" by (rule PQ)
        show "concat qs = drop (length (P @ q)) B"
          using Cons.prems(7) qpre
          by (metis add.commute append_eq_conv_conj concat.simps(2) drop_drop length_append)
      qed
      moreover have "reset ?c' = reset c" by (simp add: reset_def)
      ultimately show ?thesis using step by simp
    next
      case False
      with qle have qlen: "length q = length B - length P" by simp
      then have le: "sizeOfMessage c - bytesRead c \<le> int (length q)" using rem by simp
      have brle: "bytesRead c \<le> sizeOfMessage c" using Cons.prems by simp
      have whole: "P @ q = B"
        using Cons.prems(6) qpre qlen by (metis append_take_drop_id take_all_iff order_refl length_drop)
      have tk: "take (nat (sizeOfMessage c - bytesRead c)) q = q"
        and dr: "drop (nat (sizeOfMessage c - bytesRead c)) q = []"
        using rem qlen by simp_all
      have emitBuffer: "overwrite (P @ replicate (length B - length P) 0) (nat (bytesRead c)) q = B"
        using overwrite_append [OF qle, of P] Cons.prems(1) qlen whole by simp
      have step: "dataHandler ops c q = (reset c, [ev], None)"
        unfolding dataHandler_def loop_complete [OF ne acc le brle Cons.prems(3), of ops]
          tk dr emitBuffer frame
        by simp
      have "concat qs = []"
        using Cons.prems(7) qlen qpre
        by (metis append_eq_conv_conj append_self_conv concat.simps(2) length_drop)
      then have "feed ops (reset c) qs = (reset c, [], None)" by (rule feed_empty_chunks)
      with step show ?thesis by simp
    qed
  qed
qed

lemma frameLength_prefix:
  assumes "4 \<le> length p"
  shows "frameLength (p @ r) = frameLength p"
proof -
  have "0 < length p" "1 < length p" "2 < length p" "3 < length p"
    using assms by linarith+
  then have "(p @ r) ! 0 = p ! 0" "(p @ r) ! 1 = p ! 1" "(p @ r) ! 2 = p ! 2"
    "(p @ r) ! 3 = p ! 3"
    by (simp_all add: nth_append)
  then show ?thesis by (simp only: frameLength_def)
qed

text \<open>
  A valid frame is emitted exactly once, whatever its pieces, if the first piece has more
  than 4 bytes, or has at most 4 and the second piece brings the total above 4: then no
  piece arrives while a stub is held that it cannot complete.
\<close>

lemma first_piece_long:
  assumes empty: "bytesRead conn = 0" "sizeOfMessage conn = 0" "buffer conn = None"
      "stubBuffer conn = None"
    and frame: "frameLength B = int (length B)" "int (length B) < maxBsonMessageSize conn"
      "processMessage ops B = Inr ev"
    and pieces: "concat (p # ps) = B" "4 < length p"
  shows "feed ops conn (p # ps) = (conn, [ev], None)"
proof -
  note idle = empty_idle [OF empty(1,4)]
  have r: "reset conn = conn" using empty by (rule reset_empty)
  have B: "B = p @ concat ps" using pieces(1) by simp
  have fl: "frameLength p = int (length B)"
    using frameLength_prefix [of p "concat ps"] pieces(2) frame(1) B by simp
  show ?thesis
  proof (cases "length p = length B")
    case True
    then have pB: "p = B" and rest: "concat ps = []" using B by simp_all
    have "frameLength p < maxBsonMessageSize conn" "frameLength p = int (length p)"
      using fl frame(2) True by simp_all
    from loop_exact [OF idle pieces(2) this, of ops]
    have "dataHandler ops conn p = (conn, [ev], None)"
      by (simp add: dataHandler_def pB frame(3) r)
    moreover have "feed ops conn ps = (conn, [], None)"
      using rest by (rule feed_empty_chunks)
    ultimately show ?thesis by simp
  next
    case False
    have "length p \<le> length B" using B by simp
    with False have lt: "length p < length B" by simp
    let ?c = "conn\<lparr>buffer := Some (overwrite (alloc (nat (frameLength p))) 0 p),
                   bytesRead := int (length p), sizeOfMessage := frameLength p,
                   stubBuffer := None\<rparr>"
    have "frameLength p < maxBsonMessageSize conn" "frameLength p > int (length p)"
      using fl frame(2) lt by simp_all
    from loop_start [OF idle pieces(2) this, of ops]
    have step: "dataHandler ops conn p = (?c, [], None)" by (simp add: dataHandler_def)
    have buf: "overwrite (alloc (nat (frameLength p))) 0 p = p @ replicate (length B - length p) 0"
      using lt fl by (simp add: overwrite_def alloc_def)
    have "feed ops ?c ps = (reset ?c, [ev], None)"
    proof (rule feed_accumulating [where B = B and P = p])
      show "processMessage ops B = Inr ev" by (rule frame(3))
      show "bytesRead ?c = int (length p)" by simp
      show "sizeOfMessage ?c = int (length B)" using fl by simp
      show "buffer ?c = Some (p @ replicate (length B - length p) 0)" using buf by simp
      show "p \<noteq> []" using pieces(2) by auto
      show "length p < length B" by (rule lt)
      show "p = take (length p) B" using B by simp
      show "concat ps = drop (length p) B" using B by simp
    qed
    moreover have "reset ?c = conn" using r by (simp add: reset_def)
    ultimately show ?thesis using step by simp
  qed
qed

lemma stub_then_piece:
  assumes empty: "bytesRead conn = 0" "sizeOfMessage conn = 0" "buffer conn = None"
      "stubBuffer conn = None"
    and p: "p \<noteq> []" "length p \<le> 4" and q: "4 < length p + length q"
  shows "feed ops conn (p # q # qs) = feed ops conn ((p @ q) # qs)"
proof -
  note idle = empty_idle [OF empty(1,4)]
  have r: "reset conn = conn" using empty by (rule reset_empty)
  let ?c = "conn\<lparr>stubBuffer := Some p\<rparr>"
  have first: "dataHandler ops conn p = (?c, [], None)"
    unfolding dataHandler_def using p idle by (intro loop_short) simp_all
  have qne: "q \<noteq> []" using p(2) q by auto
  have "\<not> accumulating ?c" using empty by (simp add: accumulating_def)
  from loop_stub_concat [OF qne this _ p(1) q, of ops]
  have "dataHandler ops ?c q = dataHandler ops (reset ?c) (p @ q)"
    by (simp add: dataHandler_def)
  moreover have "reset ?c = conn" using r by (simp add: reset_def)
  ultimately have second: "dataHandler ops ?c q = dataHandler ops conn (p @ q)" by simp
  show ?thesis using first second by simp
qed

lemma first_piece_short:
  assumes empty: "bytesRead conn = 0" "sizeOfMessage conn = 0" "buffer conn = None"
      "stubBuffer conn = None"
    and frame: "frameLength B = int (length B)" "int (length B) < maxBsonMessageSize conn"
      "processMessage ops B = Inr ev"
    and pieces: "concat (p # q # qs) = B" "p \<noteq> []" "length p \<le> 4" "4 < length p + length q"
  shows "feed ops conn (p # q # qs) = (conn, [ev], None)"
proof -
  have "concat ((p @ q) # qs) = B" "4 < length (p @ q)" using pieces by simp_all
  from first_piece_long [OF empty frame this]
  show ?thesis using stub_then_piece [OF empty pieces(2,3,4), of ops qs] by simp
qed

section \<open>The claims\<close>

subsection \<open>C1\<close>

text \<open>
  C1 says that a valid frame, cut into consecutive pieces in any way, is emitted exactly
  once. The data handler does not do that when a piece arrives while a stub is held and
  the stub and the piece together have at most 4 bytes: the piece is lost. Here the
  36-byte frame \<open>frame36\<close>, whose length prefix is its length, is fed one byte per chunk:
  the stub stays at the first byte, no message is emitted, and nothing is left of the
  other 35 bytes; fed in one chunk, the same frame is emitted. (Where no such piece occurs
  the claim holds: \<open>first_piece_long\<close> and \<open>first_piece_short\<close> above.)
\<close>

theorem single_byte_chunks_lose_frame:
  "feed mongo_ops conn0 (single_bytes frame36) =
     (conn0\<lparr>stubBuffer := Some [36]\<rparr>, [], None) \<and>
   concat (single_bytes frame36) = frame36 \<and>
   frameLength frame36 = int (length frame36) \<and>
   feed mongo_ops conn0 [frame36] =
     (conn0, [Message Response header36 frame36 body20], None)"
proof -
  have "single_bytes frame36 = [36] # single_bytes (tl frame36)"
    by (simp add: single_bytes_def frame36_def)
  then have "feed mongo_ops conn0 (single_bytes frame36) =
      (conn0\<lparr>stubBuffer := Some [36]\<rparr>, [], None)"
    by (simp add: first_byte feed_dropped)
  moreover have "concat (single_bytes frame36) = frame36"
    by (simp add: single_bytes_def frame36_def body20_def)
  moreover have "frameLength frame36 = int (length frame36)"
    by (simp add: frameLength_frame36 length_frame36)
  moreover have "feed mongo_ops conn0 [frame36] =
      (conn0, [Message Response header36 frame36 body20], None)"
    by (simp add: whole_frame36)
  ultimately show ?thesis by simp
qed

subsection \<open>C2\<close>

text \<open>
  C2, amended. Fed to a connection with no held parse state, a chunk of more than 4 bytes
  whose first 4 bytes decode to a negative length, or to one above \<open>maxBsonMessageSize\<close>,
  makes the handler emit exactly one \<open>parseError\<close> and nothing else: the rest of the
  chunk is dropped, and the connection is left in the empty state. A frame that then
  arrives whole as the next chunk, with its length as prefix, above 4 and below
  \<open>maxBsonMessageSize\<close>, is handed to \<open>processMessage\<close>, and what that emits follows the
  \<open>parseError\<close>. A non-empty chunk of 4 bytes or fewer becomes the stub, and no length
  is read.
\<close>

theorem invalid_length_rejected:
  assumes empty: "bytesRead conn = 0" "sizeOfMessage conn = 0" "buffer conn = None"
      "stubBuffer conn = None"
  shows "(4 < length chunk \<and>
            (frameLength chunk < 0 \<or> frameLength chunk > maxBsonMessageSize conn) \<longrightarrow>
          dataHandler ops conn chunk = (conn, [ParseError (rejected chunk)], None) \<and>
          (frameLength B = int (length B) \<and> 4 < length B \<and>
             int (length B) < maxBsonMessageSize conn \<longrightarrow>
           feed ops conn [chunk, B] =
             (case processMessage ops B of
                Inl x \<Rightarrow> (conn, [ParseError (rejected chunk)], Some x)
              | Inr ev \<Rightarrow> (conn, [ParseError (rejected chunk), ev], None)))) \<and>
         (small \<noteq> [] \<and> length small \<le> 4 \<longrightarrow>
          dataHandler ops conn small = (conn\<lparr>stubBuffer := Some small\<rparr>, [], None))"
proof -
  note idle = empty_idle [OF empty(1,4)]
  have r: "reset conn = conn" using empty by (rule reset_empty)
  have reject: "dataHandler ops conn chunk = (conn, [ParseError (rejected chunk)], None)"
    if "4 < length chunk"
      "frameLength chunk < 0 \<or> frameLength chunk > maxBsonMessageSize conn"
    using loop_reject [OF idle that, of ops] empty
    by (simp add: dataHandler_def rejected_def)
  have whole: "dataHandler ops conn B =
      (case processMessage ops B of Inl x \<Rightarrow> (conn, [], Some x) | Inr ev \<Rightarrow> (conn, [ev], None))"
    if "frameLength B = int (length B)" "4 < length B"
      "int (length B) < maxBsonMessageSize conn"
  proof -
    have "frameLength B < maxBsonMessageSize conn" using that by simp
    from loop_exact [OF idle that(2) this that(1), of ops]
    show ?thesis by (simp add: dataHandler_def r split: sum.splits)
  qed
  have next_chunk: "feed ops conn [chunk, B] =
      (case processMessage ops B of
         Inl x \<Rightarrow> (conn, [ParseError (rejected chunk)], Some x)
       | Inr ev \<Rightarrow> (conn, [ParseError (rejected chunk), ev], None))"
    if "4 < length chunk"
      "frameLength chunk < 0 \<or> frameLength chunk > maxBsonMessageSize conn"
      "frameLength B = int (length B)" "4 < length B"
      "int (length B) < maxBsonMessageSize conn"
    using reject [OF that(1,2)] whole [OF that(3,4,5)]
    by (cases "processMessage ops B") simp_all
  have stub: "dataHandler ops conn small = (conn\<lparr>stubBuffer := Some small\<rparr>, [], None)"
    if "small \<noteq> []" "length small \<le> 4"
    unfolding dataHandler_def using that idle by (intro loop_short) simp_all
  from reject next_chunk stub show ?thesis by blast
qed

theorem invalid_length_rejected_witness:
  "dataHandler mongo_ops conn0 (bad_prefix @ [0]) =
      (conn0, [ParseError (rejected (bad_prefix @ [0]))], None) \<and>
   feed mongo_ops conn0 [bad_prefix @ [0], frame36] =
      (conn0,
       [ParseError (rejected (bad_prefix @ [0])), Message Response header36 frame36 body20],
       None) \<and>
   dataHandler mongo_ops conn0 bad_prefix =
      (conn0\<lparr>stubBuffer := Some bad_prefix\<rparr>, [], None)"
proof -
  have empty: "bytesRead conn0 = 0" "sizeOfMessage conn0 = 0" "buffer conn0 = None"
    "stubBuffer conn0 = None"
    by (simp_all add: conn0_def)
  have chunk: "4 < length (bad_prefix @ [0])"
    "frameLength (bad_prefix @ [0]) < 0
       \<or> frameLength (bad_prefix @ [0]) > maxBsonMessageSize conn0"
    by (simp_all add: frameLength_bad) (simp add: bad_prefix_def)
  have frame: "frameLength frame36 = int (length frame36)" "4 < length frame36"
    "int (length frame36) < maxBsonMessageSize conn0"
    by (simp_all add: frameLength_frame36 length_frame36) (simp add: conn0_def)
  have small: "bad_prefix \<noteq> []" "length bad_prefix \<le> 4"
    by (simp_all add: bad_prefix_def)
  note T = invalid_length_rejected [where chunk = "bad_prefix @ [0]" and ops = mongo_ops
      and B = frame36 and small = bad_prefix, OF empty]
  from T chunk have a: "dataHandler mongo_ops conn0 (bad_prefix @ [0]) =
      (conn0, [ParseError (rejected (bad_prefix @ [0]))], None)"
    by blast
  from T chunk frame have "feed mongo_ops conn0 [bad_prefix @ [0], frame36] =
      (case processMessage mongo_ops frame36 of
         Inl x \<Rightarrow> (conn0, [ParseError (rejected (bad_prefix @ [0]))], Some x)
       | Inr ev \<Rightarrow> (conn0, [ParseError (rejected (bad_prefix @ [0])), ev], None))"
    by blast
  then have b: "feed mongo_ops conn0 [bad_prefix @ [0], frame36] =
      (conn0,
       [ParseError (rejected (bad_prefix @ [0])), Message Response header36 frame36 body20],
       None)"
    by (simp only: processMessage_frame36 sum.case)
  from T small have c: "dataHandler mongo_ops conn0 bad_prefix =
      (conn0\<lparr>stubBuffer := Some bad_prefix\<rparr>, [], None)"
    by blast
  from a b c show ?thesis by (intro conjI)
qed

text \<open>
  C2 as stated fails. A valid frame that follows the offending length in the same chunk
  is not emitted: the one \<open>parseError\<close> is all the chunk yields, although the frame alone
  is emitted. And a chunk that is only the 4 offending bytes yields no \<open>parseError\<close>: it
  becomes the stub.
\<close>

theorem rest_of_rejected_chunk_dropped:
  "dataHandler mongo_ops conn0 (bad_prefix @ frame36) =
     (conn0, [ParseError (rejected (bad_prefix @ frame36))], None) \<and>
   ps_sizeOfMessage (rejected (bad_prefix @ frame36)) = - 1 \<and>
   dataHandler mongo_ops conn0 frame36 =
     (conn0, [Message Response header36 frame36 body20], None) \<and>
   dataHandler mongo_ops conn0 bad_prefix = (conn0\<lparr>stubBuffer := Some bad_prefix\<rparr>, [], None)"
proof -
  have long: "length (bad_prefix @ frame36) > 4" by (simp add: length_frame36)
  have neg: "frameLength (bad_prefix @ frame36) < 0
      \<or> frameLength (bad_prefix @ frame36) > maxBsonMessageSize conn0"
    by (simp add: frameLength_bad)
  have a: "dataHandler mongo_ops conn0 (bad_prefix @ frame36) =
     (conn0, [ParseError (rejected (bad_prefix @ frame36))], None)"
    using loop_reject [OF conn0_idle long neg, of mongo_ops]
    by (simp add: dataHandler_def rejected_def conn0_def)
  have b: "ps_sizeOfMessage (rejected (bad_prefix @ frame36)) = - 1"
    by (simp add: rejected_def frameLength_bad)
  from a b short_chunk_is_stub [of mongo_ops] whole_frame36 show ?thesis by simp
qed

subsection \<open>C3\<close>

text \<open>
  C3 says that a chunk whose announced length is above 4, at most \<open>maxBsonMessageSize\<close>
  and above the bytes at hand starts an accumulating buffer and emits nothing, also when
  the length equals \<open>maxBsonMessageSize\<close>. At exactly \<open>maxBsonMessageSize\<close> the handler
  instead hands what it has to \<open>processMessage\<close>: the 36 bytes of \<open>frame_at_max\<close>
  announce 67108864 bytes, the default maximum, and are emitted at once as a message
  whose body is the 20 bytes at hand, with no buffer kept. (Below the maximum the handler
  does what the claim says: \<open>loop_start\<close> above.)
\<close>

theorem length_at_max_emitted_truncated:
  "frameLength frame_at_max = maxBsonMessageSize conn0 \<and>
   length frame_at_max = 36 \<and>
   dataHandler mongo_ops conn0 frame_at_max =
     (conn0, [Message Response header_at_max frame_at_max body20], None)"
proof -
  have len: "length frame_at_max = 36" by (rule length_at_max)
  have long: "length frame_at_max > 4" by (simp add: len)
  have four: "4 < frameLength frame_at_max" by (simp add: frameLength_at_max)
  have mx: "frameLength frame_at_max = maxBsonMessageSize conn0"
    by (simp add: frameLength_at_max conn0_def)
  from loop_split_at_max [OF conn0_idle long four mx, of mongo_ops]
  have "dataHandler mongo_ops conn0 frame_at_max =
     (conn0, [Message Response header_at_max frame_at_max body20], None)"
    by (simp add: dataHandler_def frameLength_at_max len processMessage_at_max)
  with mx len show ?thesis by simp
qed

subsection \<open>C4\<close>

text \<open>
  C4, amended. After construction the connection's \<open>keepAliveInitialDelay\<close> is the
  requested value (300000 if none is given) when that is at most \<open>socketTimeout\<close>, and
  \<open>Math.round(socketTimeout / 2)\<close> when it is greater than \<open>socketTimeout\<close>.
\<close>

theorem keepAliveInitialDelay_rule:
  assumes "construct g sock options = Inr (g', conn, es)"
  shows "socketTimeout conn = orDefault (opt_socketTimeout options) 360000 \<and>
         keepAliveInitialDelay conn =
           (if orDefault (opt_keepAliveInitialDelay options) 300000 > socketTimeout conn
            then round_half (socketTimeout conn)
            else orDefault (opt_keepAliveInitialDelay options) 300000)"
  using assms
  by (auto simp: construct_def Let_def split: if_splits prod.splits)

theorem keepAliveInitialDelay_rule_witness:
  "construct globals0 (Some sock0) (options0\<lparr>opt_keepAliveInitialDelay := Some 400001,
        opt_socketTimeout := Some 400000\<rparr>)
     = Inr (globals0\<lparr>next_id := 1\<rparr>,
            conn0\<lparr>socketTimeout := 400000, keepAliveInitialDelay := 200000\<rparr>, []) \<and>
   keepAliveInitialDelay (conn0\<lparr>socketTimeout := 400000, keepAliveInitialDelay := 200000\<rparr>)
     = round_half 400000"
proof -
  have c: "construct globals0 (Some sock0) (options0\<lparr>opt_keepAliveInitialDelay := Some 400001,
        opt_socketTimeout := Some 400000\<rparr>)
     = Inr (globals0\<lparr>next_id := 1\<rparr>,
            conn0\<lparr>socketTimeout := 400000, keepAliveInitialDelay := 200000\<rparr>, [])"
    by (simp add: construct_def globals0_def options0_def conn0_def orDefault_def
        DEFAULT_MAX_BSON_MESSAGE_SIZE_def round_half_def)
  from keepAliveInitialDelay_rule [OF c] c show ?thesis
    by (simp add: orDefault_def options0_def)
qed

text \<open>
  C4 as stated fails on the defaults: the delay stays 300000 with a \<open>socketTimeout\<close> of
  360000, whose half is 180000.
\<close>

theorem default_delay_not_capped:
  "construct globals0 (Some sock0) options0 = Inr (globals0\<lparr>next_id := 1\<rparr>, conn0, []) \<and>
   keepAliveInitialDelay conn0 = 300000 \<and> socketTimeout conn0 = 360000 \<and>
   min (300000 :: int) (360000 div 2) = 180000"
  using construct_defaults by (simp add: conn0_def)

subsection \<open>C5\<close>




subsection \<open>C6\<close>

text \<open>
  C6, amended. For a frame whose opcode is \<open>OP_COMPRESSED\<close>, \<open>processMessage\<close> calls the
  decompressor. When the decompression succeeds with a body whose length differs from
  the \<open>uncompressedSize\<close> of the compressed header, the callback emits the
  corrupt-message error and no message. When the lengths are equal, the callback runs
  the constructor that \<open>originalOpCode\<close> selects on the decompressed bytes: if the
  constructor returns, exactly one message is emitted, with the decompressed bytes as
  body; if it raises, the exception leaves the callback and nothing is emitted. In each
  case the connection is left as it was.
\<close>

theorem decompressed_length_checked:
  assumes "parseHeader message = Inr h" "opCode h = OP_COMPRESSED ops"
    "readInt32LE message MESSAGE_HEADER_SIZE = Inr originalOpCode"
    "readInt32LE message (MESSAGE_HEADER_SIZE + 4) = Inr uncompressedSize"
  shows "\<exists>p. processMessage ops message = Inr (Decompress p) \<and>
           decompressCallback ops conn p (Inr body) =
             (if int (length body) \<noteq> uncompressedSize
              then (conn, [corrupt_message], None)
              else (case newResponse ops
                           (if originalOpCode = OP_MSG ops then BinMsg else Response)
                           message
                           (h\<lparr>fromCompressed := True, opCode := originalOpCode,
                              length_hdr := uncompressedSize\<rparr>)
                           body of
                      Some x \<Rightarrow> (conn, [], Some x)
                    | None \<Rightarrow>
                        (conn,
                         [Message (if originalOpCode = OP_MSG ops then BinMsg else Response)
                            (h\<lparr>fromCompressed := True, opCode := originalOpCode,
                               length_hdr := uncompressedSize\<rparr>)
                            message body],
                         None)))"
  using assms
  by (simp add: processMessage_def decompressCallback_def corrupt_message_def
      split: option.splits)

theorem decompressed_length_checked_witness:
  "processMessage mongo_ops compressed_five = Inr (Decompress pending_five) \<and>
   decompressCallback mongo_ops conn0 pending_five (Inr body_five) =
     (conn0, [Message BinMsg (p_msgHeader pending_five) compressed_five body_five], None) \<and>
   decompressCallback mongo_ops conn0 pending_five (Inr [9, 9]) =
     (conn0, [corrupt_message], None)"
proof -
  have op: "opCode header28 = OP_COMPRESSED mongo_ops"
    by (simp add: header28_def mongo_ops_def)
  have r1: "readInt32LE compressed_five MESSAGE_HEADER_SIZE = Inr 2013"
    by (simp add: readInt32LE_def compressed_five_def MESSAGE_HEADER_SIZE_def int32LE_def)
  have r2: "readInt32LE compressed_five (MESSAGE_HEADER_SIZE + 4) = Inr 5"
    by (simp add: readInt32LE_def compressed_five_def MESSAGE_HEADER_SIZE_def int32LE_def)
  note pm = processMessage_compressed_five
  from decompressed_length_checked [OF parseHeader_compressed_five op r1 r2, of conn0 body_five]
  obtain p where p: "processMessage mongo_ops compressed_five = Inr (Decompress p)"
    and cb: "decompressCallback mongo_ops conn0 p (Inr body_five) =
             (if int (length body_five) \<noteq> 5
              then (conn0, [corrupt_message], None)
              else (case newResponse mongo_ops
                           (if 2013 = OP_MSG mongo_ops then BinMsg else Response)
                           compressed_five
                           (header28\<lparr>fromCompressed := True, opCode := 2013,
                              length_hdr := 5\<rparr>)
                           body_five of
                      Some x \<Rightarrow> (conn0, [], Some x)
                    | None \<Rightarrow>
                        (conn0,
                         [Message (if 2013 = OP_MSG mongo_ops then BinMsg else Response)
                            (header28\<lparr>fromCompressed := True, opCode := 2013,
                               length_hdr := 5\<rparr>)
                            compressed_five body_five],
                         None)))"
    by blast
  from p pm have p5: "p = pending_five" by simp
  from cb have a: "decompressCallback mongo_ops conn0 pending_five (Inr body_five) =
     (conn0, [Message BinMsg (p_msgHeader pending_five) compressed_five body_five], None)"
    unfolding p5
    by (simp add: pending_five_def header28_def mongo_ops_def driverConstructors_def
        body_five_def)
  from decompressed_length_checked [OF parseHeader_compressed_five op r1 r2, of conn0 "[9, 9]"]
  obtain q where q: "processMessage mongo_ops compressed_five = Inr (Decompress q)"
    and cq: "decompressCallback mongo_ops conn0 q (Inr [9, 9]) =
             (if int (length [9, 9 :: byte]) \<noteq> 5
              then (conn0, [corrupt_message], None)
              else (case newResponse mongo_ops
                           (if 2013 = OP_MSG mongo_ops then BinMsg else Response)
                           compressed_five
                           (header28\<lparr>fromCompressed := True, opCode := 2013,
                              length_hdr := 5\<rparr>)
                           [9, 9] of
                      Some x \<Rightarrow> (conn0, [], Some x)
                    | None \<Rightarrow>
                        (conn0,
                         [Message (if 2013 = OP_MSG mongo_ops then BinMsg else Response)
                            (header28\<lparr>fromCompressed := True, opCode := 2013,
                               length_hdr := 5\<rparr>)
                            compressed_five [9, 9]],
                         None)))"
    by blast
  from q pm have q5: "q = pending_five" by simp
  from cq have b: "decompressCallback mongo_ops conn0 pending_five (Inr [9, 9]) =
     (conn0, [corrupt_message], None)"
    unfolding q5 by simp
  from pm a b show ?thesis by (intro conjI)
qed

text \<open>
  C6 as stated fails. The frame \<open>compressed_short\<close> announces an uncompressed size of 3
  and the original opcode of \<open>OP_MSG\<close>; a decompressed body of exactly 3 bytes is too
  short for the flag word that \<open>BinMsg\<close> reads: the constructor raises, and no message
  (and no error) is emitted.
\<close>

theorem short_body_emits_nothing:
  "processMessage mongo_ops compressed_short = Inr (Decompress pending_short) \<and>
   int (length [9, 9, 9 :: byte]) = length_hdr (p_msgHeader pending_short) \<and>
   decompressCallback mongo_ops conn0 pending_short (Inr [9, 9, 9]) =
     (conn0, [], Some RangeError)"
  using processMessage_compressed_short
  by (simp add: decompressCallback_def pending_short_def mongo_ops_def driverConstructors_def)

subsection \<open>C7\<close>

text \<open>
  C7, amended. The callback of a decompression does not look at the \<open>destroyed\<close> flag.
  On a destroyed connection it does what it does on a live one: it emits an error
  notification when the decompressor failed, the corrupt-message error when the length
  differs from the announced one, and otherwise constructs the response and emits the
  message (or lets the constructor's exception through, emitting nothing); and it leaves
  the connection as it is.
\<close>

theorem completion_ignores_destroyed:
  assumes "destroyed conn"
  shows "decompressCallback ops conn p result =
           (case result of
              Inl e \<Rightarrow> (conn, [ErrorEvent (DecompressorError e)], None)
            | Inr body \<Rightarrow>
                if int (length body) \<noteq> length_hdr (p_msgHeader p)
                then (conn, [corrupt_message], None)
                else (case newResponse ops
                             (if opCode (p_msgHeader p) = OP_MSG ops then BinMsg else Response)
                             (p_message p) (p_msgHeader p) body of
                        Some x \<Rightarrow> (conn, [], Some x)
                      | None \<Rightarrow>
                          (conn,
                           [Message
                              (if opCode (p_msgHeader p) = OP_MSG ops then BinMsg else Response)
                              (p_msgHeader p) (p_message p) body],
                           None))) \<and>
         snd (decompressCallback ops conn p result) =
           snd (decompressCallback ops (conn\<lparr>destroyed := False\<rparr>) p result)"
  by (simp add: decompressCallback_def corrupt_message_def split: sum.splits option.splits)

theorem completion_ignores_destroyed_witness:
  "destroyed (conn0\<lparr>destroyed := True\<rparr>) \<and>
   decompressCallback mongo_ops (conn0\<lparr>destroyed := True\<rparr>) pending_five (Inr body_five) =
     (conn0\<lparr>destroyed := True\<rparr>,
      [Message BinMsg (p_msgHeader pending_five) compressed_five body_five], None) \<and>
   decompressCallback mongo_ops (conn0\<lparr>destroyed := True\<rparr>) pending_five
       (Inl ''Z_DATA_ERROR'') =
     (conn0\<lparr>destroyed := True\<rparr>, [ErrorEvent (DecompressorError ''Z_DATA_ERROR'')], None)"
proof -
  have d: "destroyed (conn0\<lparr>destroyed := True\<rparr>)" by simp
  from completion_ignores_destroyed [OF d, of mongo_ops pending_five "Inr body_five"]
    completion_ignores_destroyed [OF d, of mongo_ops pending_five "Inl ''Z_DATA_ERROR''"]
  show ?thesis
    by (simp add: pending_five_def mongo_ops_def driverConstructors_def body_five_def)
qed

text \<open>
  C7 as stated fails. The connection is destroyed with \<open>force\<close>; a decompression that
  completes afterwards still emits its message, or the corrupt-message error.
\<close>

theorem completion_after_destroy_emits:
  "destroy globals0 conn0 (Some True) False =
     (globals0, conn0\<lparr>destroyed := True\<rparr>, [SocketDestroy]) \<and>
   processMessage mongo_ops compressed_five = Inr (Decompress pending_five) \<and>
   decompressCallback mongo_ops (conn0\<lparr>destroyed := True\<rparr>) pending_five (Inr body_five) =
     (conn0\<lparr>destroyed := True\<rparr>,
      [Message BinMsg (p_msgHeader pending_five) compressed_five body_five], None) \<and>
   decompressCallback mongo_ops (conn0\<lparr>destroyed := True\<rparr>) pending_five (Inr [9, 9]) =
     (conn0\<lparr>destroyed := True\<rparr>, [corrupt_message], None)"
  using processMessage_compressed_five
  by (simp add: destroy_def globals0_def conn0_def orDefault_def decompressCallback_def
      pending_five_def mongo_ops_def driverConstructors_def body_five_def corrupt_message_def)

subsection \<open>C8\<close>

text \<open>
  C8, amended. A second call of \<open>destroy\<close> with the same arguments raises nothing and
  leaves the connection and the registry as the first call left them: marked destroyed
  if there is no socket or \<open>force\<close> is set, and removed from the registry if accounting is
  on. But it is not a no-op: it has the effects of the first call once more, which are
  the spy's notification if accounting and a spy are on, then, if there is a socket,
  \<open>socket.destroy()\<close> and the callback (if one is passed) with \<open>force\<close>, or
  \<open>socket.end\<close> without.
\<close>

theorem destroy_twice:
  assumes "destroy g conn force cb = (g', conn', es)"
  shows "destroy g' conn' force cb = (g', conn', es) \<and>
         es = destroy_effects g conn force cb \<and>
         conn' = (if socket conn = None \<or> orDefault force False
                  then conn\<lparr>destroyed := True\<rparr> else conn) \<and>
         g' = (if connectionAccounting g
               then g\<lparr>connections := connections g - {id_conn conn}\<rparr> else g)"
proof -
  from assms have es: "es = destroy_effects g conn force cb"
    and c: "conn' = (if socket conn = None \<or> orDefault force False
                  then conn\<lparr>destroyed := True\<rparr> else conn)"
    and g: "g' = (if connectionAccounting g
               then g\<lparr>connections := connections g - {id_conn conn}\<rparr> else g)"
    by (simp_all add: destroy_result)
  have same: "destroy_effects g' conn' force cb = destroy_effects g conn force cb"
    by (simp add: c g destroy_effects_def)
  have "destroy g' conn' force cb = (g', conn', es)"
    unfolding destroy_result [of g' conn'] same es
    by (simp add: c g)
  with es c g show ?thesis by simp
qed

theorem destroy_twice_witness:
  "destroy accounting1 conn0 None True =
     (accounting1\<lparr>connections := {}\<rparr>, conn0, [SpyDeleteConnection 0, SocketEnd True]) \<and>
   destroy (accounting1\<lparr>connections := {}\<rparr>) conn0 None True =
     (accounting1\<lparr>connections := {}\<rparr>, conn0, [SpyDeleteConnection 0, SocketEnd True]) \<and>
   destroy_effects accounting1 conn0 None True = [SpyDeleteConnection 0, SocketEnd True]"
proof -
  have a: "destroy accounting1 conn0 None True =
     (accounting1\<lparr>connections := {}\<rparr>, conn0, [SpyDeleteConnection 0, SocketEnd True])"
    by (simp add: destroy_def deleteConnection_def accounting1_def conn0_def orDefault_def)
  from destroy_twice [OF a]
  have b: "destroy (accounting1\<lparr>connections := {}\<rparr>) conn0 None True =
     (accounting1\<lparr>connections := {}\<rparr>, conn0, [SpyDeleteConnection 0, SocketEnd True])"
    and c: "[SpyDeleteConnection 0, SocketEnd True] = destroy_effects accounting1 conn0 None True"
    by blast+
  from a b c [symmetric] show ?thesis by (intro conjI)
qed

text \<open>
  C8 as stated fails. With accounting and a spy on, a second forced \<open>destroy\<close> with a
  callback notifies the spy again, destroys the socket again and calls the callback
  again.
\<close>

theorem second_destroy_repeats_effects:
  "destroy accounting1 conn0 (Some True) True =
     (accounting1\<lparr>connections := {}\<rparr>, conn0\<lparr>destroyed := True\<rparr>,
      [SpyDeleteConnection 0, SocketDestroy, DestroyCallback None]) \<and>
   destroy (accounting1\<lparr>connections := {}\<rparr>) (conn0\<lparr>destroyed := True\<rparr>) (Some True) True =
     (accounting1\<lparr>connections := {}\<rparr>, conn0\<lparr>destroyed := True\<rparr>,
      [SpyDeleteConnection 0, SocketDestroy, DestroyCallback None])"
  by (simp add: destroy_def deleteConnection_def accounting1_def conn0_def orDefault_def)

subsection \<open>C9\<close>

text \<open>
  C9, amended. When a stub is held and a chunk arrives, the handler stops without
  emitting anything if the stub and the chunk together have at most 4 bytes; if they
  have more than 4, it clears the parse state and goes on with the concatenation as a
  fresh buffer, whose length prefix it then reads.
\<close>

theorem stub_and_chunk:
  assumes "\<not> accumulating conn" "stubBuffer conn = Some s" "s \<noteq> []" "data \<noteq> []"
  shows "if length s + length data > 4
         then dataHandler ops conn data = dataHandler ops (reset conn) (s @ data)
         else snd (dataHandler ops conn data) = ([], None)"
proof (cases "length s + length data > 4")
  case True
  from loop_stub_concat [OF assms(4,1,2,3) True, of ops] True
  show ?thesis by (simp add: dataHandler_def)
next
  case False
  then have "length s + length data \<le> 4" by simp
  from loop_stub_keep [OF assms(4,1,2,3) this, of ops] False
  show ?thesis by (simp add: dataHandler_def)
qed

theorem stub_and_chunk_witness:
  "dataHandler mongo_ops (conn0\<lparr>stubBuffer := Some [255]\<rparr>) [255, 255, 255, 0] =
     dataHandler mongo_ops conn0 (bad_prefix @ [0]) \<and>
   dataHandler mongo_ops conn0 (bad_prefix @ [0]) =
     (conn0, [ParseError (rejected (bad_prefix @ [0]))], None)"
proof -
  have "\<not> accumulating (conn0\<lparr>stubBuffer := Some [255]\<rparr>)"
    "stubBuffer (conn0\<lparr>stubBuffer := Some [255]\<rparr>) = Some [255]"
    "[255 :: byte] \<noteq> []" "[255, 255, 255, 0 :: byte] \<noteq> []"
    by (simp_all add: accumulating_def conn0_def)
  from stub_and_chunk [OF this, of mongo_ops]
  have "dataHandler mongo_ops (conn0\<lparr>stubBuffer := Some [255]\<rparr>) [255, 255, 255, 0] =
     dataHandler mongo_ops conn0 (bad_prefix @ [0])"
    by (simp add: reset_def conn0_def bad_prefix_def)
  with rejected_five show ?thesis by simp
qed

text \<open>
  C9 as stated fails. A stub of one byte and a chunk of three make a concatenation of
  exactly 4 bytes, here the length \<open>-1\<close>: it is not length-parsed (no \<open>parseError\<close>),
  and the stub afterwards is still the one byte.
\<close>

theorem four_byte_concatenation_not_parsed:
  "dataHandler mongo_ops (conn0\<lparr>stubBuffer := Some [255]\<rparr>) [255, 255, 255] =
     (conn0\<lparr>stubBuffer := Some [255]\<rparr>, [], None)"
  unfolding dataHandler_def
  by (rule loop_stub_keep [where s = "[255]"]) (simp_all add: accumulating_def conn0_def)

subsection \<open>C10\<close>

text \<open>
  C10. For every sequence of chunks fed to the data handler of a connection as the
  constructor leaves it, the parse-state invariant holds after each feed: at most one of
  the stub buffer and the accumulating buffer is non-empty, and while accumulating
  \<open>0 \<le> bytesRead \<le> sizeOfMessage\<close>. (\<open>take n chunks\<close> is the run up to the \<open>n\<close>-th
  feed.)
\<close>

theorem parse_invariant_after_each_feed:
  assumes "construct g sock options = Inr (g', conn, es)"
  shows "parse_invariant (fst (feed ops conn (take n chunks)))"
  using assms by (intro wf_parse_invariant wf_feed wf_constructed)

theorem parse_invariant_after_each_feed_witness:
  "construct globals0 (Some sock0) options0 = Inr (globals0\<lparr>next_id := 1\<rparr>, conn0, []) \<and>
   parse_invariant (fst (feed mongo_ops conn0 (take 2 [[16, 0], [0, 0, 7], [0, 0, 0]])))"
  using parse_invariant_after_each_feed [OF construct_defaults, of mongo_ops 2
      "[[16, 0], [0, 0, 7], [0, 0, 0]]"]
    construct_defaults
  by simp

end
